theory Spec2Isabelle
  imports Complex_Main
begin

section \<open>Values of the host language\<close>

text \<open>
  The serializer of \<^verbatim>\<open>src/widget-src/code.tsx\<close> only copies numbers, it never computes
  with them.  A number is a finite value or one of the three non-finite doubles, which
  \<^verbatim>\<open>JSON.stringify\<close> prints as \<^verbatim>\<open>null\<close>.
\<close>

datatype number = Finite real | NaN | PosInfinity | NegInfinity

text \<open>
  A JavaScript value.  \<open>Mixed\<close> is the host constant \<^verbatim>\<open>figma.mixed\<close>: a distinguished
  value that the code recognises by identity (\<^verbatim>\<open>=== figma.mixed\<close>); the host declares it
  as a unique symbol.  An object is the list of its own properties in insertion order.
\<close>

datatype jsval =
    Undefined
  | Null
  | Mixed
  | Bool bool
  | Num number
  | Str string
  | Arr "jsval list"
  | Obj "(string \<times> jsval) list"

type_synonym object = "(string \<times> jsval) list"

text \<open>\<^verbatim>\<open>k in o\<close>\<close>

definition has :: "string \<Rightarrow> object \<Rightarrow> bool" where
  "has k ob = (map_of ob k \<noteq> None)"

text \<open>\<^verbatim>\<open>o.k\<close>: reading a property that the object lacks gives \<^verbatim>\<open>undefined\<close>, it does not throw.\<close>

definition read :: "object \<Rightarrow> string \<Rightarrow> jsval" where
  "read ob k = (case map_of ob k of None \<Rightarrow> Undefined | Some v \<Rightarrow> v)"

text \<open>\<^verbatim>\<open>o.k = v\<close>: an existing property keeps its place, a new one is added at the end.\<close>

fun assign :: "object \<Rightarrow> string \<Rightarrow> jsval \<Rightarrow> object" where
  "assign [] k v = [(k, v)]"
| "assign ((k', v') # ob) k v =
     (if k' = k then (k, v) # ob else (k', v') # assign ob k v)"

section \<open>Scene nodes\<close>

text \<open>
  A \<^verbatim>\<open>SceneNode\<close> of the host.  The eight fields that every scene node has are typed as the
  host types them; \<open>props\<close> holds the other properties the node exposes (the
  type-specific ones, which a node may or may not have), and \<open>children\<close> is \<open>None\<close> when
  the node has no \<^verbatim>\<open>children\<close> property.
\<close>

datatype node = Node
  (ntype: string)
  (nname: string)
  (nx: number)
  (ny: number)
  (nwidth: number)
  (nheight: number)
  (nid: string)
  (nvisible: bool)
  (props: object)
  (children: "node list option")

section \<open>processNode (src/widget-src/code.tsx, lines 65-147)\<close>

text \<open>Lines 66-75: the record every node starts from.\<close>

definition commonFields :: "node \<Rightarrow> object" where
  "commonFields n =
     [(''type'', Str (ntype n)),
      (''name'', Str (nname n)),
      (''x'', Num (nx n)),
      (''y'', Num (ny n)),
      (''width'', Num (nwidth n)),
      (''height'', Num (nheight n)),
      (''id'', Str (nid n)),
      (''visible'', Bool (nvisible n))]"

text \<open>
  Lines 78-139: the \<^verbatim>\<open>switch (node.type)\<close>.  The case labels are tried in the order of the
  source and the first label equal to the type is taken, so the second
  \<^verbatim>\<open>case 'COMPONENT'\<close> (line 125) stands here as the source has it, after the first one
  (line 81).
\<close>

definition typeFields :: "node \<Rightarrow> object \<Rightarrow> object" where
  "typeFields n nodeData =
     (if ntype n = ''FRAME'' \<or> ntype n = ''INSTANCE'' \<or> ntype n = ''COMPONENT'' then
        (if has ''layoutMode'' (props n) then
           (let frameData = assign nodeData ''layoutMode'' (read (props n) ''layoutMode'');
                frameData = assign frameData ''primaryAxisSizingMode''
                              (read (props n) ''primaryAxisSizingMode'');
                frameData = assign frameData ''counterAxisSizingMode''
                              (read (props n) ''counterAxisSizingMode'');
                frameData = assign frameData ''paddingLeft'' (read (props n) ''paddingLeft'');
                frameData = assign frameData ''paddingRight'' (read (props n) ''paddingRight'');
                frameData = assign frameData ''paddingTop'' (read (props n) ''paddingTop'');
                frameData = assign frameData ''paddingBottom'' (read (props n) ''paddingBottom'')
            in frameData)
         else nodeData)
      else if ntype n = ''TEXT'' then
        (let textData = assign nodeData ''characters'' (read (props n) ''characters'');
             textData = assign textData ''fontSize''
                          (if read (props n) ''fontSize'' = Mixed then Undefined
                           else read (props n) ''fontSize'');
             textData = assign textData ''fontName''
                          (if read (props n) ''fontName'' = Mixed then Undefined
                           else read (props n) ''fontName'');
             textData = assign textData ''textAlignHorizontal''
                          (read (props n) ''textAlignHorizontal'');
             textData = assign textData ''textAlignVertical''
                          (read (props n) ''textAlignVertical'');
             textData = assign textData ''fills''
                          (if read (props n) ''fills'' = Mixed then Undefined
                           else read (props n) ''fills'')
         in textData)
      else if ntype n = ''RECTANGLE'' then
        (let rectData = assign nodeData ''cornerRadius''
                          (if read (props n) ''cornerRadius'' = Mixed then Undefined
                           else read (props n) ''cornerRadius'');
             rectData = assign rectData ''fills''
                          (if read (props n) ''fills'' = Mixed then Undefined
                           else read (props n) ''fills'');
             rectData = assign rectData ''strokes'' (read (props n) ''strokes'');
             rectData = assign rectData ''strokeWeight''
                          (if read (props n) ''strokeWeight'' = Mixed then Undefined
                           else read (props n) ''strokeWeight'')
         in rectData)
      else if ntype n = ''COMPONENT_SET'' then
        (let componentSetData = assign nodeData ''componentId'' (Str (nid n));
             componentSetData = assign componentSetData ''instanceName'' (Str (nname n))
         in componentSetData)
      else if ntype n = ''COMPONENT'' then
        (let componentData = assign nodeData ''componentId'' (Str (nid n));
             componentData = assign componentData ''instanceName'' (Str (nname n))
         in componentData)
      else if ntype n = ''VECTOR'' then nodeData
      else nodeData)"

text \<open>
  The whole function.  Lines 141-144: the children are serialized, in their order, when
  the node has a \<^verbatim>\<open>children\<close> property and it is not empty.
\<close>

fun processNode :: "node \<Rightarrow> object" where
  "processNode (Node ty nm x y w h i vis ps ch) =
     (let nodeData = typeFields (Node ty nm x y w h i vis ps ch)
                       (commonFields (Node ty nm x y w h i vis ps ch))
      in case ch of
           None \<Rightarrow> nodeData
         | Some cs \<Rightarrow>
             if length cs > 0
             then assign nodeData ''children'' (Arr (map (\<lambda>child. Obj (processNode child)) cs))
             else nodeData)"

text \<open>
  The names the switch reads from the node, by branch, and the test of its first branch
  (lines 79-81).
\<close>

definition layoutKeys :: "string list" where
  "layoutKeys =
     [''layoutMode'', ''primaryAxisSizingMode'', ''counterAxisSizingMode'',
      ''paddingLeft'', ''paddingRight'', ''paddingTop'', ''paddingBottom'']"

definition textKeys :: "string list" where
  "textKeys =
     [''characters'', ''fontSize'', ''fontName'', ''textAlignHorizontal'',
      ''textAlignVertical'', ''fills'']"

definition rectKeys :: "string list" where
  "rectKeys = [''cornerRadius'', ''fills'', ''strokes'', ''strokeWeight'']"

text \<open>
  The names of the record that \<open>processNode\<close> fills from the typed fields of the node
  or from the child sequence, not from a property of the same name.
\<close>

definition reservedKeys :: "string list" where
  "reservedKeys =
     [''type'', ''name'', ''x'', ''y'', ''width'', ''height'', ''id'', ''visible'',
      ''componentId'', ''instanceName'', ''children'']"

definition frameLike :: "node \<Rightarrow> bool" where
  "frameLike n = (ntype n = ''FRAME'' \<or> ntype n = ''INSTANCE'' \<or> ntype n = ''COMPONENT'')"

section \<open>The emitted document\<close>

text \<open>
  \<^verbatim>\<open>JSON.stringify(v, null, 2)\<close> is modelled by the document that the text it returns
  denotes; the white space of the two-space indentation is not part of the model.
\<close>

datatype json =
    JNull
  | JBool bool
  | JNum real
  | JStr string
  | JArr "json list"
  | JObj "(string \<times> json) list"

text \<open>
  The standard serialization: a property whose value is \<^verbatim>\<open>undefined\<close> or a symbol is left
  out of its object, such an element of an array is printed as \<^verbatim>\<open>null\<close>, and so is a
  number that is not finite.  The result is \<open>None\<close> where \<^verbatim>\<open>JSON.stringify\<close> returns
  \<^verbatim>\<open>undefined\<close>.
\<close>

fun JSON_stringify :: "jsval \<Rightarrow> json option" where
  "JSON_stringify Undefined = None"
| "JSON_stringify Mixed = None"
| "JSON_stringify Null = Some JNull"
| "JSON_stringify (Bool b) = Some (JBool b)"
| "JSON_stringify (Num n) = Some (case n of Finite r \<Rightarrow> JNum r | _ \<Rightarrow> JNull)"
| "JSON_stringify (Str s) = Some (JStr s)"
| "JSON_stringify (Arr vs) =
     Some (JArr (map (\<lambda>v. case JSON_stringify v of None \<Rightarrow> JNull | Some j \<Rightarrow> j) vs))"
| "JSON_stringify (Obj ob) =
     Some (JObj (concat (map (\<lambda>(k, v). case JSON_stringify v of
                                           None \<Rightarrow> []
                                         | Some j \<Rightarrow> [(k, j)]) ob)))"

text \<open>The member \<open>k\<close> of an emitted object, \<open>None\<close> when the document has no such key.\<close>

definition json_member :: "json option \<Rightarrow> string \<Rightarrow> json option" where
  "json_member doc k = (case doc of Some (JObj ms) \<Rightarrow> map_of ms k | _ \<Rightarrow> None)"

text \<open>
  The member \<open>k\<close> of the document emitted for the record \<open>ob\<close>: \<open>None\<close> when the key
  does not appear in the text at all.
\<close>

definition emitted :: "object \<Rightarrow> string \<Rightarrow> json option" where
  "emitted ob k = json_member (JSON_stringify (Obj ob)) k"

section \<open>exportSelectedWithDescendantsToJSON (src/widget-src/code.tsx, lines 150-175)\<close>

text \<open>
  \<^verbatim>\<open>figma.currentPage\<close> with the three properties the function reads, and the message it
  hands to \<^verbatim>\<open>figma.ui.postMessage\<close>.
\<close>

record PageNode =
  page_name :: string
  page_id :: string
  selection :: "node list"

record UIMessage =
  msg_type :: string
  data :: "json option"

text \<open>Lines 164-168: the envelope, built for a selection that is not empty.\<close>

definition selectionData :: "PageNode \<Rightarrow> object" where
  "selectionData currentPage =
     [(''pageName'', Str (page_name currentPage)),
      (''pageId'', Str (page_id currentPage)),
      (''selectedNodes'', Arr (map (\<lambda>node. Obj (processNode node)) (selection currentPage)))]"

text \<open>The serialized roots held by an envelope.\<close>

definition out_selected :: "object \<Rightarrow> jsval list" where
  "out_selected envelope =
     (case read envelope ''selectedNodes'' of Arr vs \<Rightarrow> vs | _ \<Rightarrow> [])"

text \<open>The document of the empty selection: \<^verbatim>\<open>{ error: 'No elements selected' }\<close>.\<close>

definition errorPayload :: json where
  "errorPayload = JObj [(''error'', JStr ''No elements selected'')]"

text \<open>
  The function returns nothing; its effect is the messages it posts to the UI, which are
  the result here, in the order they are posted.
\<close>

definition exportSelectedWithDescendantsToJSON :: "PageNode \<Rightarrow> UIMessage list" where
  "exportSelectedWithDescendantsToJSON currentPage =
     (if length (selection currentPage) = 0
      then [\<lparr>msg_type = ''export'',
             data = JSON_stringify (Obj [(''error'', Str ''No elements selected'')])\<rparr>]
      else (let jsonData = JSON_stringify (Obj (selectionData currentPage))
            in [\<lparr>msg_type = ''export'', data = jsonData\<rparr>]))"

section \<open>The shape of a tree\<close>

text \<open>The children of a node, none when it has no \<^verbatim>\<open>children\<close> property.\<close>

definition kids :: "node \<Rightarrow> node list" where
  "kids n = (case children n of None \<Rightarrow> [] | Some cs \<Rightarrow> cs)"

text \<open>
  A tree with every attribute forgotten: how many children each node has, in which
  order, and how they nest.  \<open>shape_of\<close> is the shape of an input node.
\<close>

datatype shape = Shape (branches: "shape list")

fun shape_of :: "node \<Rightarrow> shape" where
  "shape_of (Node ty nm x y w h i vis ps ch) =
     Shape (case ch of None \<Rightarrow> [] | Some cs \<Rightarrow> map shape_of cs)"

text \<open>
  The elements of the \<^verbatim>\<open>children\<close> array of a serialized record (none when the record has
  no such array), and the shape of a serialized record.
\<close>

definition out_children :: "jsval \<Rightarrow> jsval list" where
  "out_children v =
     (case v of
        Obj ob \<Rightarrow> (case map_of ob ''children'' of Some (Arr vs) \<Rightarrow> vs | _ \<Rightarrow> [])
      | _ \<Rightarrow> [])"

function out_shape :: "jsval \<Rightarrow> shape" where
  "out_shape v = Shape (map out_shape (out_children v))"
  by pat_completeness auto
termination
proof (relation "measure size")
  show "wf (measure (size :: jsval \<Rightarrow> nat))"
    by simp
next
  fix v c :: jsval
  assume c: "c \<in> set (out_children v)"
  have member: "map_of ob k = Some w \<Longrightarrow> size w < Suc (size_list (size_prod (\<lambda>_. 0) size) ob)"
    for ob :: object and k w
    by (induction ob) (auto split: if_splits)
  have item: "u \<in> set us \<Longrightarrow> size u < Suc (size_list size us)" for u :: jsval and us
    by (induction us) auto
  from c obtain ob where v: "v = Obj ob"
    by (cases v) (auto simp: out_children_def)
  with c obtain vs where ch: "map_of ob ''children'' = Some (Arr vs)" and cvs: "c \<in> set vs"
    by (cases "map_of ob ''children''") (auto simp: out_children_def split: jsval.splits)
  from member [OF ch] item [OF cvs] have "size c < size v"
    by (simp add: v)
  then show "(c, v) \<in> measure size"
    by simp
qed

text \<open>The number of nodes, the nesting depth and the number of nodes at a given depth.\<close>

fun countNodes :: "shape \<Rightarrow> nat" where
  "countNodes (Shape ts) = Suc (sum_list (map countNodes ts))"

fun depth :: "shape \<Rightarrow> nat" where
  "depth (Shape ts) = Suc (fold max (map depth ts) 0)"

fun nodes_at :: "nat \<Rightarrow> shape \<Rightarrow> nat" where
  "nodes_at 0 t = 1"
| "nodes_at (Suc d) t = sum_list (map (nodes_at d) (branches t))"

section \<open>The call stack of processNode\<close>

text \<open>
  \<open>processNode\<close> once more, with the depth of the call stack made explicit: every call
  takes one frame, and a call that finds no frame left fails (\<open>None\<close>) instead of
  returning.  The body is the one of \<open>processNode\<close>.
\<close>

fun processNode_stack :: "nat \<Rightarrow> node \<Rightarrow> object option" where
  "processNode_stack 0 n = None"
| "processNode_stack (Suc d) (Node ty nm x y w h i vis ps ch) =
     (let nodeData = typeFields (Node ty nm x y w h i vis ps ch)
                       (commonFields (Node ty nm x y w h i vis ps ch))
      in case ch of
           None \<Rightarrow> Some nodeData
         | Some cs \<Rightarrow>
             if length cs > 0
             then (case those (map (processNode_stack d) cs) of
                     None \<Rightarrow> None
                   | Some rs \<Rightarrow> Some (assign nodeData ''children'' (Arr (map Obj rs))))
             else Some nodeData)"

section \<open>The property-name variant (src/unnamed/part_000)\<close>

text \<open>
  The second source file holds an earlier \<^verbatim>\<open>processNode\<close> (lines 23-40): six common
  fields, then \<^verbatim>\<open>otherProperties: Object.keys(node)\<close>, then the children as above.  The
  own property names of a host node are the host's business, so \<^verbatim>\<open>Object.keys\<close> is the
  parameter \<open>keys\<close>.
\<close>

fun processNode_names :: "(node \<Rightarrow> string list) \<Rightarrow> node \<Rightarrow> object" where
  "processNode_names keys (Node ty nm x y w h i vis ps ch) =
     (let nodeData =
            [(''type'', Str ty),
             (''name'', Str nm),
             (''x'', Num x),
             (''y'', Num y),
             (''width'', Num w),
             (''height'', Num h),
             (''otherProperties'', Arr (map Str (keys (Node ty nm x y w h i vis ps ch))))]
      in case ch of
           None \<Rightarrow> nodeData
         | Some cs \<Rightarrow>
             if length cs > 0
             then assign nodeData ''children''
                    (Arr (map (\<lambda>child. Obj (processNode_names keys child)) cs))
             else nodeData)"

text \<open>
  Its \<^verbatim>\<open>exportSelectedWithDescendantsToJSON\<close> (lines 43-68) is the one above, word for
  word, around this \<^verbatim>\<open>processNode\<close>.
\<close>

definition exportSelectedWithDescendantsToJSON_names ::
    "(node \<Rightarrow> string list) \<Rightarrow> PageNode \<Rightarrow> UIMessage list" where
  "exportSelectedWithDescendantsToJSON_names keys currentPage =
     (if length (selection currentPage) = 0
      then [\<lparr>msg_type = ''export'',
             data = JSON_stringify (Obj [(''error'', Str ''No elements selected'')])\<rparr>]
      else (let selectionData =
                  [(''pageName'', Str (page_name currentPage)),
                   (''pageId'', Str (page_id currentPage)),
                   (''selectedNodes'',
                      Arr (map (\<lambda>node. Obj (processNode_names keys node))
                             (selection currentPage)))];
                jsonData = JSON_stringify (Obj selectionData)
            in [\<lparr>msg_type = ''export'', data = jsonData\<rparr>]))"

section \<open>Example nodes\<close>

text \<open>A rectangle whose \<^verbatim>\<open>strokes\<close> holds the sentinel, and one whose \<^verbatim>\<open>fills\<close> does.\<close>

definition mixedStrokes :: node where
  "mixedStrokes =
     Node ''RECTANGLE'' ''Box'' (Finite 0) (Finite 0) (Finite 80) (Finite 40) ''3:5'' True
       [(''cornerRadius'', Num (Finite 4)), (''fills'', Arr []), (''strokes'', Mixed),
        (''strokeWeight'', Num (Finite 1))]
       None"

definition mixedFills :: node where
  "mixedFills =
     Node ''RECTANGLE'' ''Box'' (Finite 0) (Finite 0) (Finite 80) (Finite 40) ''3:6'' True
       [(''cornerRadius'', Num (Finite 4)), (''fills'', Mixed), (''strokes'', Arr []),
        (''strokeWeight'', Num (Finite 1))]
       None"

text \<open>
  A frame with two text children, the second one hidden; a page whose selection is that
  frame, and a page with nothing selected.
\<close>

definition frameWithTexts :: node where
  "frameWithTexts =
     Node ''FRAME'' ''Card'' (Finite 0) (Finite 0) (Finite 200) (Finite 100) ''1:1'' True []
       (Some [Node ''TEXT'' ''Title'' (Finite 8) (Finite 8) (Finite 100) (Finite 20) ''1:2''
                True [(''characters'', Str ''Hello'')] None,
              Node ''TEXT'' ''Body'' (Finite 8) (Finite 36) (Finite 100) (Finite 20) ''1:3''
                False [(''characters'', Str ''World'')] None])"

definition examplePage :: PageNode where
  "examplePage = \<lparr>page_name = ''Page 1'', page_id = ''0:1'', selection = [frameWithTexts]\<rparr>"

definition emptyPage :: PageNode where
  "emptyPage = \<lparr>page_name = ''Page 1'', page_id = ''0:1'', selection = []\<rparr>"

text \<open>
  A page whose selection is the rectangle with mixed fills, a hidden frame with a hidden
  child, and a node of a type the switch does not name.
\<close>

definition rectanglePage :: PageNode where
  "rectanglePage = \<lparr>page_name = ''Page 1'', page_id = ''0:1'', selection = [mixedFills]\<rparr>"

definition hiddenFrame :: node where
  "hiddenFrame =
     Node ''FRAME'' ''Hidden'' (Finite 0) (Finite 0) (Finite 200) (Finite 100) ''2:1'' False
       [(''layoutMode'', Str ''VERTICAL''), (''paddingLeft'', Num (Finite 8))]
       (Some [Node ''TEXT'' ''Label'' (Finite 8) (Finite 8) (Finite 100) (Finite 20) ''2:2''
                False [(''characters'', Str ''Hi'')] None])"

definition ellipse :: node where
  "ellipse =
     Node ''ELLIPSE'' ''Dot'' (Finite 4) (Finite 6) (Finite 10) (Finite 10) ''4:1'' True [] None"

text \<open>A host whose nodes own exactly their type-specific properties.\<close>

definition propNames :: "node \<Rightarrow> string list" where
  "propNames n = map fst (props n)"

section \<open>Reading and writing properties\<close>

declare out_shape.simps [simp del]

declare processNode.simps [simp del]

lemma map_of_assign: "map_of (assign ob k v) = (map_of ob)(k \<mapsto> v)"
  by (induction ob) (auto simp: fun_eq_iff)

lemma read_assign: "read (assign ob k v) k' = (if k' = k then v else read ob k')"
  by (simp add: read_def map_of_assign)

lemma has_assign: "has k' (assign ob k v) = (k' = k \<or> has k' ob)"
  by (simp add: has_def map_of_assign)

lemma keys_assign: "set (map fst (assign ob k v)) = insert k (set (map fst ob))"
  using dom_map_of_conv_image_fst [of "assign ob k v"] dom_map_of_conv_image_fst [of ob]
  by (simp add: map_of_assign)

lemma distinct_assign: "distinct (map fst ob) \<Longrightarrow> distinct (map fst (assign ob k v))"
proof (induction ob)
  case Nil
  then show ?case by simp
next
  case (Cons p ob)
  obtain k' v' where p: "p = (k', v')" by (cases p)
  show ?case
  proof (cases "k' = k")
    case True
    with Cons.prems p show ?thesis by simp
  next
    case False
    have "fst ` set (assign ob k v) = insert k (fst ` set ob)"
      using keys_assign [of ob k v] by simp
    with Cons p False show ?thesis by auto
  qed
qed

lemma read_absent: "\<not> has k ob \<Longrightarrow> read ob k = Undefined"
  by (simp add: has_def read_def)

lemma read_Nil: "read [] k = Undefined"
  by (simp add: read_def)

lemma read_Cons: "read ((k', v) # ob) k = (if k = k' then v else read ob k)"
  by (simp add: read_def)

lemma has_Nil: "\<not> has k []"
  by (simp add: has_def)

lemma has_Cons: "has k ((k', v) # ob) = (k = k' \<or> has k ob)"
  by (auto simp: has_def)

text \<open>\<open>processNode\<close> in terms of the selectors of its argument.\<close>

lemma processNode_unfold:
  "processNode n =
     (case children n of
        None \<Rightarrow> typeFields n (commonFields n)
      | Some cs \<Rightarrow>
          if cs \<noteq> []
          then assign (typeFields n (commonFields n)) ''children''
                 (Arr (map (\<lambda>child. Obj (processNode child)) cs))
          else typeFields n (commonFields n))"
  by (cases n) (simp add: processNode.simps split: option.splits)

text \<open>The fields of the record a node starts from, and what the switch leaves of them.\<close>

lemma read_commonFields:
  "read (commonFields n) ''type'' = Str (ntype n)"
  "read (commonFields n) ''name'' = Str (nname n)"
  "read (commonFields n) ''x'' = Num (nx n)"
  "read (commonFields n) ''y'' = Num (ny n)"
  "read (commonFields n) ''width'' = Num (nwidth n)"
  "read (commonFields n) ''height'' = Num (nheight n)"
  "read (commonFields n) ''id'' = Str (nid n)"
  "read (commonFields n) ''visible'' = Bool (nvisible n)"
  by (simp_all add: read_def commonFields_def)

lemma read_typeFields_common:
  "read (typeFields n ob) ''type'' = read ob ''type''"
  "read (typeFields n ob) ''name'' = read ob ''name''"
  "read (typeFields n ob) ''x'' = read ob ''x''"
  "read (typeFields n ob) ''y'' = read ob ''y''"
  "read (typeFields n ob) ''width'' = read ob ''width''"
  "read (typeFields n ob) ''height'' = read ob ''height''"
  "read (typeFields n ob) ''id'' = read ob ''id''"
  "read (typeFields n ob) ''visible'' = read ob ''visible''"
  by (simp_all add: typeFields_def Let_def read_assign)

lemma read_processNode_common:
  "read (processNode n) ''type'' = read (commonFields n) ''type''"
  "read (processNode n) ''name'' = read (commonFields n) ''name''"
  "read (processNode n) ''x'' = read (commonFields n) ''x''"
  "read (processNode n) ''y'' = read (commonFields n) ''y''"
  "read (processNode n) ''width'' = read (commonFields n) ''width''"
  "read (processNode n) ''height'' = read (commonFields n) ''height''"
  "read (processNode n) ''id'' = read (commonFields n) ''id''"
  "read (processNode n) ''visible'' = read (commonFields n) ''visible''"
  by (simp_all add: processNode_unfold [of n] read_assign read_typeFields_common
        split: option.splits)

section \<open>The record of a node, key by key\<close>

lemma has_commonFields_children: "\<not> has ''children'' (commonFields n)"
  by (simp add: has_def commonFields_def)

lemma has_typeFields_children: "has ''children'' (typeFields n ob) = has ''children'' ob"
  by (simp add: typeFields_def Let_def has_assign)

lemma read_processNode:
  "k \<noteq> ''children'' \<Longrightarrow> read (processNode n) k = read (typeFields n (commonFields n)) k"
  by (simp add: processNode_unfold [of n] read_assign split: option.splits)

lemma has_processNode:
  "k \<noteq> ''children'' \<Longrightarrow> has k (processNode n) = has k (typeFields n (commonFields n))"
  by (simp add: processNode_unfold [of n] has_assign split: option.splits)

lemma has_processNode_children:
  "has ''children'' (processNode n) = (\<exists>cs. children n = Some cs \<and> cs \<noteq> [])"
  by (simp add: processNode_unfold [of n] has_assign has_typeFields_children
        has_commonFields_children split: option.splits)

lemma read_processNode_children:
  "read (processNode n) ''children'' =
     (if kids n = [] then Undefined else Arr (map (\<lambda>child. Obj (processNode child)) (kids n)))"
proof -
  have "read (typeFields n (commonFields n)) ''children'' = Undefined"
    using has_typeFields_children [of n "commonFields n"] has_commonFields_children [of n]
    by (simp add: has_def read_def)
  then show ?thesis
    by (simp add: processNode_unfold [of n] kids_def read_assign split: option.splits)
qed

text \<open>No key occurs twice in a serialized record.\<close>

lemma distinct_commonFields: "distinct (map fst (commonFields n))"
  by (simp add: commonFields_def)

lemma distinct_typeFields:
  "distinct (map fst ob) \<Longrightarrow> distinct (map fst (typeFields n ob))"
  by (simp add: typeFields_def Let_def distinct_assign)

lemma distinct_processNode: "distinct (map fst (processNode n))"
  by (simp add: processNode_unfold [of n] distinct_assign distinct_typeFields
        distinct_commonFields split: option.splits)

text \<open>What the emitted document holds under a key of a record without repeated keys.\<close>

lemma json_member_stringify:
  "distinct (map fst ob) \<Longrightarrow>
   json_member (JSON_stringify (Obj ob)) k =
     (case map_of ob k of None \<Rightarrow> None | Some v \<Rightarrow> JSON_stringify v)"
proof (induction ob)
  case Nil
  then show ?case by (simp add: json_member_def)
next
  case (Cons p ob)
  obtain k' v' where p: "p = (k', v')" by (cases p)
  from Cons.prems p have fresh: "map_of ob k' = None" and d: "distinct (map fst ob)"
    by (auto simp: map_of_eq_None_iff)
  from Cons.IH [OF d] fresh show ?case
    by (cases "JSON_stringify v'") (auto simp: p json_member_def)
qed

lemma emitted_processNode:
  "emitted (processNode n) k =
     (if has k (processNode n) then JSON_stringify (read (processNode n) k) else None)"
proof -
  have "emitted (processNode n) k =
          (case map_of (processNode n) k of None \<Rightarrow> None | Some v \<Rightarrow> JSON_stringify v)"
    unfolding emitted_def by (rule json_member_stringify [OF distinct_processNode])
  also have "\<dots> = (if has k (processNode n) then JSON_stringify (read (processNode n) k)
                    else None)"
    by (simp add: has_def read_def split: option.splits)
  finally show ?thesis .
qed

lemma has_commonFields_derived:
  "\<not> has ''componentId'' (commonFields n)"
  "\<not> has ''instanceName'' (commonFields n)"
  by (simp_all add: has_def commonFields_def)

section \<open>The property-name variant\<close>

text \<open>
  The earlier \<^verbatim>\<open>processNode\<close> of \<^verbatim>\<open>src/unnamed/part_000\<close> treats the children and the empty
  selection as the one above does, but its records hold six common fields and the list
  of property names: they have no \<^verbatim>\<open>id\<close> and no \<^verbatim>\<open>visible\<close> field.
\<close>

lemma processNode_names_unfold:
  "processNode_names keys n =
     (let nodeData =
            [(''type'', Str (ntype n)), (''name'', Str (nname n)), (''x'', Num (nx n)),
             (''y'', Num (ny n)), (''width'', Num (nwidth n)), (''height'', Num (nheight n)),
             (''otherProperties'', Arr (map Str (keys n)))]
      in if kids n = [] then nodeData
         else assign nodeData ''children''
                (Arr (map (\<lambda>child. Obj (processNode_names keys child)) (kids n))))"
  by (cases n) (simp add: kids_def Let_def split: option.splits)

lemma processNode_names_children_key:
  "has ''children'' (processNode_names keys n) \<longleftrightarrow> (\<exists>cs. children n = Some cs \<and> cs \<noteq> [])"
  by (simp add: processNode_names_unfold [of keys n] Let_def has_assign has_Cons has_Nil kids_def
        split: option.splits)

lemma processNode_names_fields:
  "read (processNode_names keys n) ''type'' = Str (ntype n) \<and>
   read (processNode_names keys n) ''name'' = Str (nname n) \<and>
   read (processNode_names keys n) ''x'' = Num (nx n) \<and>
   read (processNode_names keys n) ''y'' = Num (ny n) \<and>
   read (processNode_names keys n) ''width'' = Num (nwidth n) \<and>
   read (processNode_names keys n) ''height'' = Num (nheight n) \<and>
   read (processNode_names keys n) ''otherProperties'' = Arr (map Str (keys n)) \<and>
   \<not> has ''id'' (processNode_names keys n) \<and>
   \<not> has ''visible'' (processNode_names keys n)"
  by (simp add: processNode_names_unfold [of keys n] Let_def read_assign has_assign
        read_Cons read_Nil has_Cons has_Nil)

lemma export_names_empty:
  "selection p = [] \<Longrightarrow>
   exportSelectedWithDescendantsToJSON_names keys p =
     [\<lparr>msg_type = ''export'', data = Some errorPayload\<rparr>]"
  by (simp add: exportSelectedWithDescendantsToJSON_names_def errorPayload_def)

lemma export_names_nonempty:
  "selection p \<noteq> [] \<Longrightarrow>
   exportSelectedWithDescendantsToJSON_names keys p =
     [\<lparr>msg_type = ''export'',
       data = JSON_stringify (Obj
         [(''pageName'', Str (page_name p)),
          (''pageId'', Str (page_id p)),
          (''selectedNodes'',
             Arr (map (\<lambda>node. Obj (processNode_names keys node)) (selection p)))])\<rparr>]"
  by (simp add: exportSelectedWithDescendantsToJSON_names_def Let_def del: JSON_stringify.simps)

lemma read_processNode_names_children:
  "read (processNode_names keys n) ''children'' =
     (if kids n = [] then Undefined
      else Arr (map (\<lambda>child. Obj (processNode_names keys child)) (kids n)))"
  by (simp add: processNode_names_unfold [of keys n] Let_def read_assign read_Cons read_Nil)

lemma stringify_names_envelope:
  "JSON_stringify (Obj
     [(''pageName'', Str (page_name p)),
      (''pageId'', Str (page_id p)),
      (''selectedNodes'',
         Arr (map (\<lambda>node. Obj (processNode_names keys node)) (selection p)))]) =
   Some (JObj [(''pageName'', JStr (page_name p)),
               (''pageId'', JStr (page_id p)),
               (''selectedNodes'',
                  JArr (map (\<lambda>node. case JSON_stringify (Obj (processNode_names keys node)) of
                                        None \<Rightarrow> JNull | Some j \<Rightarrow> j)
                          (selection p)))])"
  by (simp add: o_def)

lemma export_names_error_iff:
  "exportSelectedWithDescendantsToJSON_names keys p =
     [\<lparr>msg_type = ''export'', data = Some errorPayload\<rparr>] \<longleftrightarrow> selection p = []"
proof
  assume posted: "exportSelectedWithDescendantsToJSON_names keys p =
     [\<lparr>msg_type = ''export'', data = Some errorPayload\<rparr>]"
  show "selection p = []"
  proof (rule ccontr)
    assume "selection p \<noteq> []"
    from export_names_nonempty [OF this, of keys] posted show False
      by (simp only: stringify_names_envelope) (simp add: errorPayload_def)
  qed
next
  assume "selection p = []"
  then show "exportSelectedWithDescendantsToJSON_names keys p =
     [\<lparr>msg_type = ''export'', data = Some errorPayload\<rparr>]"
    by (rule export_names_empty)
qed

section \<open>The common fields\<close>

text \<open>
  C3 says that for every input node the serialized record holds all eight common fields.
  The records of \<^verbatim>\<open>src/widget-src/code.tsx\<close> do; those of the earlier \<^verbatim>\<open>processNode\<close> in
  \<^verbatim>\<open>src/unnamed/part_000\<close> (lines 24-32) have neither \<^verbatim>\<open>id\<close> nor \<^verbatim>\<open>visible\<close>, as at this
  ellipse.
\<close>

theorem names_variant_lacks_id_visible:
  "\<not> has ''id'' (processNode_names propNames ellipse) \<and>
   \<not> has ''visible'' (processNode_names propNames ellipse) \<and>
   read (processNode_names propNames ellipse) ''id'' = Undefined \<and>
   read (processNode_names propNames ellipse) ''visible'' = Undefined"
proof -
  note f = processNode_names_fields [of propNames ellipse]
  from f have i: "\<not> has ''id'' (processNode_names propNames ellipse)"
    by (elim conjE)
  from f have v: "\<not> has ''visible'' (processNode_names propNames ellipse)"
    by (elim conjE)
  from i v read_absent [OF i] read_absent [OF v] show ?thesis
    by (intro conjI)
qed

text \<open>
  C3 as amended.  For every input node, whatever its type, the record serialized by
  \<open>processNode\<close> of \<^verbatim>\<open>src/widget-src/code.tsx\<close> holds the eight common fields \<^verbatim>\<open>type\<close>,
  \<^verbatim>\<open>name\<close>, \<^verbatim>\<open>x\<close>, \<^verbatim>\<open>y\<close>, \<^verbatim>\<open>width\<close>, \<^verbatim>\<open>height\<close>, \<^verbatim>\<open>id\<close> and \<^verbatim>\<open>visible\<close>, each with the value
  the node has for it; the record of the property-name variant holds \<^verbatim>\<open>type\<close>, \<^verbatim>\<open>name\<close>,
  \<^verbatim>\<open>x\<close>, \<^verbatim>\<open>y\<close>, \<^verbatim>\<open>width\<close>, \<^verbatim>\<open>height\<close> and \<^verbatim>\<open>otherProperties\<close>, and no \<^verbatim>\<open>id\<close> or \<^verbatim>\<open>visible\<close>
  field.
\<close>

theorem common_fields_by_variant:
  "read (processNode n) ''type'' = Str (ntype n) \<and>
   read (processNode n) ''name'' = Str (nname n) \<and>
   read (processNode n) ''x'' = Num (nx n) \<and>
   read (processNode n) ''y'' = Num (ny n) \<and>
   read (processNode n) ''width'' = Num (nwidth n) \<and>
   read (processNode n) ''height'' = Num (nheight n) \<and>
   read (processNode n) ''id'' = Str (nid n) \<and>
   read (processNode n) ''visible'' = Bool (nvisible n) \<and>
   read (processNode_names keys n) ''type'' = Str (ntype n) \<and>
   read (processNode_names keys n) ''name'' = Str (nname n) \<and>
   read (processNode_names keys n) ''x'' = Num (nx n) \<and>
   read (processNode_names keys n) ''y'' = Num (ny n) \<and>
   read (processNode_names keys n) ''width'' = Num (nwidth n) \<and>
   read (processNode_names keys n) ''height'' = Num (nheight n) \<and>
   read (processNode_names keys n) ''otherProperties'' = Arr (map Str (keys n)) \<and>
   \<not> has ''id'' (processNode_names keys n) \<and>
   \<not> has ''visible'' (processNode_names keys n)"
  using processNode_names_fields [of keys n]
  by (simp add: read_processNode_common read_commonFields)

theorem common_fields_by_variant_witness:
  "read (processNode ellipse) ''type'' = Str ''ELLIPSE'' \<and>
   read (processNode ellipse) ''name'' = Str ''Dot'' \<and>
   read (processNode ellipse) ''x'' = Num (Finite 4) \<and>
   read (processNode ellipse) ''y'' = Num (Finite 6) \<and>
   read (processNode ellipse) ''width'' = Num (Finite 10) \<and>
   read (processNode ellipse) ''height'' = Num (Finite 10) \<and>
   read (processNode ellipse) ''id'' = Str ''4:1'' \<and>
   read (processNode ellipse) ''visible'' = Bool True \<and>
   read (processNode_names propNames ellipse) ''type'' = Str ''ELLIPSE'' \<and>
   read (processNode_names propNames ellipse) ''otherProperties'' = Arr []"
proof -
  have "ntype ellipse = ''ELLIPSE''" "nname ellipse = ''Dot''" "nx ellipse = Finite 4"
    "ny ellipse = Finite 6" "nwidth ellipse = Finite 10" "nheight ellipse = Finite 10"
    "nid ellipse = ''4:1''" "nvisible ellipse = True" "propNames ellipse = []"
    by (simp_all add: ellipse_def propNames_def)
  with common_fields_by_variant [of ellipse propNames] show ?thesis
    by simp
qed

section \<open>The children key\<close>

text \<open>
  C4.  The serialized record has a \<^verbatim>\<open>children\<close> key if and only if the input node has a
  child sequence and it is not empty.  A node without children, or with an empty child
  sequence, gets no \<^verbatim>\<open>children\<close> key at all, never an empty sequence; the same holds of
  the emitted document, and of the records of the property-name variant.
\<close>

theorem processNode_children_key:
  "(has ''children'' (processNode n) \<longleftrightarrow> (\<exists>cs. children n = Some cs \<and> cs \<noteq> [])) \<and>
   read (processNode n) ''children'' \<noteq> Arr [] \<and>
   (emitted (processNode n) ''children'' \<noteq> None
      \<longleftrightarrow> (\<exists>cs. children n = Some cs \<and> cs \<noteq> [])) \<and>
   emitted (processNode n) ''children'' \<noteq> Some (JArr []) \<and>
   (has ''children'' (processNode_names keys n)
      \<longleftrightarrow> (\<exists>cs. children n = Some cs \<and> cs \<noteq> [])) \<and>
   read (processNode_names keys n) ''children'' \<noteq> Arr []"
  by (auto simp add: has_processNode_children read_processNode_children
        emitted_processNode kids_def processNode_names_children_key
        read_processNode_names_children split: option.splits)

theorem processNode_children_key_witness:
  "has ''children'' (processNode frameWithTexts) \<and>
   has ''children'' (processNode_names propNames frameWithTexts) \<and>
   \<not> has ''children'' (processNode (Node ''FRAME'' ''f'' (Finite 0) (Finite 0) (Finite 10)
      (Finite 10) ''1:1'' True [] (Some []))) \<and>
   \<not> has ''children'' (processNode_names propNames (Node ''FRAME'' ''f'' (Finite 0) (Finite 0)
      (Finite 10) (Finite 10) ''1:1'' True [] (Some []))) \<and>
   \<not> has ''children'' (processNode ellipse) \<and>
   \<not> has ''children'' (processNode_names propNames ellipse)"
  using processNode_children_key [of frameWithTexts propNames]
    processNode_children_key [of "Node ''FRAME'' ''f'' (Finite 0) (Finite 0) (Finite 10)
      (Finite 10) ''1:1'' True [] (Some [])" propNames]
    processNode_children_key [of ellipse propNames]
  by (simp add: frameWithTexts_def ellipse_def)

section \<open>Components and component sets\<close>

text \<open>
  C8.  For a node of type \<^verbatim>\<open>COMPONENT_SET\<close> the record holds \<^verbatim>\<open>componentId\<close>, the node's
  own id, and \<^verbatim>\<open>instanceName\<close>, its own name: the set with id \<^verbatim>\<open>123:4\<close> and name
  \<^verbatim>\<open>Button\<close> yields \<^verbatim>\<open>componentId: "123:4"\<close> and \<^verbatim>\<open>instanceName: "Button"\<close>.
\<close>

theorem component_set_fields:
  "ntype n = ''COMPONENT_SET'' \<Longrightarrow>
   read (processNode n) ''componentId'' = Str (nid n) \<and>
   read (processNode n) ''instanceName'' = Str (nname n)"
  by (simp add: read_processNode typeFields_def Let_def read_assign)

theorem component_set_fields_witness:
  "read (processNode (Node ''COMPONENT_SET'' ''Button'' (Finite 0) (Finite 0) (Finite 120)
           (Finite 40) ''123:4'' True [] (Some []))) ''componentId'' = Str ''123:4'' \<and>
   read (processNode (Node ''COMPONENT_SET'' ''Button'' (Finite 0) (Finite 0) (Finite 120)
           (Finite 40) ''123:4'' True [] (Some []))) ''instanceName'' = Str ''Button''"
  using component_set_fields [of "Node ''COMPONENT_SET'' ''Button'' (Finite 0) (Finite 0)
           (Finite 120) (Finite 40) ''123:4'' True [] (Some [])"]
  by simp

text \<open>
  C1 says that a node of type \<^verbatim>\<open>COMPONENT\<close> gets \<^verbatim>\<open>componentId\<close> and \<^verbatim>\<open>instanceName\<close>.
  The source has the assignments (lines 125-131), but under a second \<^verbatim>\<open>case 'COMPONENT'\<close>:
  the first one (line 81, shared with \<^verbatim>\<open>FRAME\<close> and \<^verbatim>\<open>INSTANCE\<close>) is taken and ends with
  \<^verbatim>\<open>break\<close>, so the record of a component has neither key.
\<close>

theorem component_lacks_derived_fields:
  "ntype n = ''COMPONENT'' \<Longrightarrow>
   \<not> has ''componentId'' (processNode n) \<and> \<not> has ''instanceName'' (processNode n)"
  by (simp add: has_processNode typeFields_def Let_def has_assign has_commonFields_derived)

text \<open>The same at one component, with id \<^verbatim>\<open>12:7\<close> and name \<^verbatim>\<open>Card\<close>.\<close>

theorem component_lacks_derived_fields_at_input:
  "\<not> has ''componentId'' (processNode (Node ''COMPONENT'' ''Card'' (Finite 0) (Finite 0)
      (Finite 200) (Finite 100) ''12:7'' True [] (Some []))) \<and>
   \<not> has ''instanceName'' (processNode (Node ''COMPONENT'' ''Card'' (Finite 0) (Finite 0)
      (Finite 200) (Finite 100) ''12:7'' True [] (Some []))) \<and>
   emitted (processNode (Node ''COMPONENT'' ''Card'' (Finite 0) (Finite 0)
      (Finite 200) (Finite 100) ''12:7'' True [] (Some []))) ''componentId'' = None"
  using component_lacks_derived_fields [of "Node ''COMPONENT'' ''Card'' (Finite 0) (Finite 0)
      (Finite 200) (Finite 100) ''12:7'' True [] (Some [])"]
  by (simp add: emitted_processNode)

section \<open>The switch\<close>

lemma read_assign_copy:
  "(k \<noteq> k' \<Longrightarrow> read ob k = read ps k) \<Longrightarrow> read (assign ob k' (read ps k')) k = read ps k"
  by (auto simp: read_assign)

text \<open>The switch, branch by branch.\<close>

lemma typeFields_text:
  "ntype n = ''TEXT'' \<Longrightarrow>
   typeFields n ob =
     assign (assign (assign (assign (assign (assign ob
       ''characters'' (read (props n) ''characters''))
       ''fontSize'' (if read (props n) ''fontSize'' = Mixed then Undefined
                     else read (props n) ''fontSize''))
       ''fontName'' (if read (props n) ''fontName'' = Mixed then Undefined
                     else read (props n) ''fontName''))
       ''textAlignHorizontal'' (read (props n) ''textAlignHorizontal''))
       ''textAlignVertical'' (read (props n) ''textAlignVertical''))
       ''fills'' (if read (props n) ''fills'' = Mixed then Undefined
                  else read (props n) ''fills'')"
  by (simp add: typeFields_def Let_def)

lemma typeFields_rectangle:
  "ntype n = ''RECTANGLE'' \<Longrightarrow>
   typeFields n ob =
     assign (assign (assign (assign ob
       ''cornerRadius'' (if read (props n) ''cornerRadius'' = Mixed then Undefined
                         else read (props n) ''cornerRadius''))
       ''fills'' (if read (props n) ''fills'' = Mixed then Undefined
                  else read (props n) ''fills''))
       ''strokes'' (read (props n) ''strokes''))
       ''strokeWeight'' (if read (props n) ''strokeWeight'' = Mixed then Undefined
                         else read (props n) ''strokeWeight'')"
  by (simp add: typeFields_def Let_def)

lemma typeFields_frame:
  "frameLike n \<Longrightarrow>
   typeFields n ob =
     (if has ''layoutMode'' (props n) then
        assign (assign (assign (assign (assign (assign (assign ob
          ''layoutMode'' (read (props n) ''layoutMode''))
          ''primaryAxisSizingMode'' (read (props n) ''primaryAxisSizingMode''))
          ''counterAxisSizingMode'' (read (props n) ''counterAxisSizingMode''))
          ''paddingLeft'' (read (props n) ''paddingLeft''))
          ''paddingRight'' (read (props n) ''paddingRight''))
          ''paddingTop'' (read (props n) ''paddingTop''))
          ''paddingBottom'' (read (props n) ''paddingBottom'')
      else ob)"
  by (simp add: frameLike_def typeFields_def Let_def)

lemma typeFields_component_set:
  "ntype n = ''COMPONENT_SET'' \<Longrightarrow>
   typeFields n ob =
     assign (assign ob ''componentId'' (Str (nid n))) ''instanceName'' (Str (nname n))"
  by (simp add: typeFields_def Let_def)

lemma typeFields_other:
  "\<not> frameLike n \<Longrightarrow> ntype n \<noteq> ''TEXT'' \<Longrightarrow> ntype n \<noteq> ''RECTANGLE'' \<Longrightarrow>
   ntype n \<noteq> ''COMPONENT_SET'' \<Longrightarrow> typeFields n ob = ob"
  by (simp add: frameLike_def typeFields_def)

text \<open>A name the node lacks is read as \<^verbatim>\<open>undefined\<close> and stays so in the record.\<close>

lemma read_typeFields_absent:
  assumes "\<not> has k (props n)" and "read ob k = Undefined"
    and "k \<noteq> ''componentId''" and "k \<noteq> ''instanceName''"
  shows "read (typeFields n ob) k = Undefined"
proof -
  from assms(1) have p: "read (props n) k = Undefined"
    by (rule read_absent)
  consider (isFrame) "frameLike n" | (isText) "ntype n = ''TEXT''"
    | (isRect) "ntype n = ''RECTANGLE''" | (isSet) "ntype n = ''COMPONENT_SET''"
    | (isOther) "\<not> frameLike n" "ntype n \<noteq> ''TEXT''" "ntype n \<noteq> ''RECTANGLE''"
        "ntype n \<noteq> ''COMPONENT_SET''"
    by blast
  then show ?thesis
  proof cases
    case isFrame
    with p assms(2) show ?thesis
      by (auto simp: typeFields_frame read_assign)
  next
    case isText
    with p assms(2) show ?thesis
      by (auto simp: typeFields_text read_assign)
  next
    case isRect
    with p assms(2) show ?thesis
      by (auto simp: typeFields_rectangle read_assign)
  next
    case isSet
    with assms(2-4) show ?thesis
      by (simp add: typeFields_component_set read_assign)
  next
    case isOther
    with assms(2) show ?thesis
      by (simp add: typeFields_other)
  qed
qed

lemma read_commonFields_other:
  "k \<notin> set (map fst (commonFields n)) \<Longrightarrow> read (commonFields n) k = Undefined"
  by (simp add: read_def map_of_eq_None_iff [THEN iffD2])

lemma hostKeys_fresh:
  assumes "k \<in> set (layoutKeys @ textKeys @ rectKeys)"
  shows "k \<noteq> ''componentId'' \<and> k \<noteq> ''instanceName'' \<and> k \<noteq> ''children'' \<and>
         k \<notin> set (map fst (commonFields n))"
proof -
  from assms have "k \<in> set layoutKeys \<or> k \<in> set textKeys \<or> k \<in> set rectKeys"
    by simp
  then show ?thesis
    unfolding layoutKeys_def textKeys_def rectKeys_def set_simps insert_iff empty_iff
    by (elim disjE) (simp_all add: commonFields_def)
qed

lemma absent_subfield_undefined:
  assumes "k \<in> set (layoutKeys @ textKeys @ rectKeys)" and "\<not> has k (props n)"
  shows "read (processNode n) k = Undefined"
proof -
  note fresh = hostKeys_fresh [OF assms(1), of n]
  from fresh have "read (commonFields n) k = Undefined"
    by (intro read_commonFields_other) (elim conjE)
  with fresh assms(2) have "read (typeFields n (commonFields n)) k = Undefined"
    by (intro read_typeFields_absent) (elim conjE | assumption)+
  with fresh show ?thesis
    by (simp add: read_processNode)
qed

lemma emitted_undefined:
  "read (processNode n) k = Undefined \<Longrightarrow> emitted (processNode n) k = None"
  by (simp add: emitted_processNode)

lemma emitted_absent:
  "\<not> has k (processNode n) \<Longrightarrow> emitted (processNode n) k = None"
  by (simp add: emitted_processNode)

text \<open>The layout fields of a frame-like node.\<close>

lemma layoutKeys_cases:
  "k \<in> set layoutKeys \<longleftrightarrow>
     k = ''layoutMode'' \<or> k = ''primaryAxisSizingMode'' \<or> k = ''counterAxisSizingMode'' \<or>
     k = ''paddingLeft'' \<or> k = ''paddingRight'' \<or> k = ''paddingTop'' \<or> k = ''paddingBottom''"
  by (simp add: layoutKeys_def)

lemma layout_copied:
  assumes "frameLike n" and "has ''layoutMode'' (props n)" and "k \<in> set layoutKeys"
  shows "has k (processNode n) \<and> read (processNode n) k = read (props n) k"
proof -
  from assms(3) have cases: "k = ''layoutMode'' \<or> k = ''primaryAxisSizingMode'' \<or>
      k = ''counterAxisSizingMode'' \<or> k = ''paddingLeft'' \<or> k = ''paddingRight'' \<or>
      k = ''paddingTop'' \<or> k = ''paddingBottom''"
    by (simp only: layoutKeys_cases)
  then have k: "k \<noteq> ''children''"
    by (elim disjE) simp_all
  from typeFields_frame [OF assms(1), of "commonFields n"] assms(2)
  have tf: "typeFields n (commonFields n) =
      assign (assign (assign (assign (assign (assign (assign (commonFields n)
          ''layoutMode'' (read (props n) ''layoutMode''))
          ''primaryAxisSizingMode'' (read (props n) ''primaryAxisSizingMode''))
          ''counterAxisSizingMode'' (read (props n) ''counterAxisSizingMode''))
          ''paddingLeft'' (read (props n) ''paddingLeft''))
          ''paddingRight'' (read (props n) ''paddingRight''))
          ''paddingTop'' (read (props n) ''paddingTop''))
          ''paddingBottom'' (read (props n) ''paddingBottom'')"
    by (simp only: if_True)
  have "has k (typeFields n (commonFields n))"
    unfolding tf has_assign using cases by (elim disjE) simp_all
  moreover have "read (typeFields n (commonFields n)) k = read (props n) k"
    unfolding tf using cases by (intro read_assign_copy) simp
  ultimately show ?thesis
    by (simp only: read_processNode [OF k] has_processNode [OF k] simp_thms)
qed

lemma layout_omitted:
  assumes "frameLike n" and "\<not> has ''layoutMode'' (props n)" and "k \<in> set layoutKeys"
  shows "\<not> has k (processNode n)"
proof -
  from assms(3) have cases: "k = ''layoutMode'' \<or> k = ''primaryAxisSizingMode'' \<or>
      k = ''counterAxisSizingMode'' \<or> k = ''paddingLeft'' \<or> k = ''paddingRight'' \<or>
      k = ''paddingTop'' \<or> k = ''paddingBottom''"
    by (simp only: layoutKeys_cases)
  then have k: "k \<noteq> ''children''"
    by (elim disjE) simp_all
  from typeFields_frame [OF assms(1), of "commonFields n"] assms(2)
  have tf: "typeFields n (commonFields n) = commonFields n"
    by (simp only: if_False)
  from cases have "\<not> has k (commonFields n)"
    by (elim disjE) (simp_all add: commonFields_def has_Cons has_Nil)
  then show ?thesis
    by (simp only: has_processNode [OF k] tf not_False_eq_True)
qed

section \<open>The sentinel\<close>

text \<open>
  Six attributes are tested against the sentinel before they are copied (lines 100, 101,
  104, 111, 112 and 114); the others are copied as the node has them, the \<^verbatim>\<open>strokes\<close> of a
  rectangle among them (line 113), so that a record can hold the sentinel, which
  \<^verbatim>\<open>JSON.stringify\<close> then leaves out.
\<close>

lemma rectangle_strokes_copied:
  "ntype n = ''RECTANGLE'' \<Longrightarrow> read (processNode n) ''strokes'' = read (props n) ''strokes''"
  by (simp add: read_processNode typeFields_rectangle [of n "commonFields n"] read_assign)

lemma strokes_record_keeps_sentinel:
  "ntype mixedStrokes = ''RECTANGLE'' \<and>
   read (props mixedStrokes) ''strokes'' = Mixed \<and>
   has ''strokes'' (processNode mixedStrokes) \<and>
   read (processNode mixedStrokes) ''strokes'' = Mixed"
proof -
  have ty: "ntype mixedStrokes = ''RECTANGLE''"
    by (simp add: mixedStrokes_def)
  have ps: "read (props mixedStrokes) ''strokes'' = Mixed"
    by (simp add: mixedStrokes_def read_Cons)
  note tf = typeFields_rectangle [OF ty, of "commonFields mixedStrokes"]
  have "has ''strokes'' (processNode mixedStrokes)"
    by (simp add: has_processNode tf has_assign)
  moreover have "read (processNode mixedStrokes) ''strokes'' = Mixed"
    by (simp add: read_processNode tf read_assign ps)
  ultimately show ?thesis
    using ty ps by simp
qed

lemma mixed_checked_undefined:
  assumes "read (props n) k = Mixed"
    and "ntype n = ''TEXT'' \<and> (k = ''fontSize'' \<or> k = ''fontName'' \<or> k = ''fills'') \<or>
         ntype n = ''RECTANGLE'' \<and>
           (k = ''cornerRadius'' \<or> k = ''fills'' \<or> k = ''strokeWeight'')"
  shows "read (processNode n) k = Undefined"
  using assms(2)
proof (elim disjE conjE)
  assume ty: "ntype n = ''TEXT''"
  note tf = typeFields_text [OF ty, of "commonFields n"]
  { assume "k = ''fontSize''" with assms(1) show ?thesis
      by (simp add: read_processNode tf read_assign) }
  { assume "k = ''fontName''" with assms(1) show ?thesis
      by (simp add: read_processNode tf read_assign) }
  { assume "k = ''fills''" with assms(1) show ?thesis
      by (simp add: read_processNode tf read_assign) }
next
  assume ty: "ntype n = ''RECTANGLE''"
  note tf = typeFields_rectangle [OF ty, of "commonFields n"]
  { assume "k = ''cornerRadius''" with assms(1) show ?thesis
      by (simp add: read_processNode tf read_assign) }
  { assume "k = ''fills''" with assms(1) show ?thesis
      by (simp add: read_processNode tf read_assign) }
  { assume "k = ''strokeWeight''" with assms(1) show ?thesis
      by (simp add: read_processNode tf read_assign) }
qed

lemma read_typeFields_mixed:
  assumes "read (props n) k = Mixed" and "read ob k = Undefined"
    and "k \<noteq> ''componentId''" and "k \<noteq> ''instanceName''"
  shows "read (typeFields n ob) k = Undefined \<or> read (typeFields n ob) k = Mixed"
proof -
  note p = assms(1)
  consider (isFrame) "frameLike n" | (isText) "ntype n = ''TEXT''"
    | (isRect) "ntype n = ''RECTANGLE''" | (isSet) "ntype n = ''COMPONENT_SET''"
    | (isOther) "\<not> frameLike n" "ntype n \<noteq> ''TEXT''" "ntype n \<noteq> ''RECTANGLE''"
        "ntype n \<noteq> ''COMPONENT_SET''"
    by blast
  then show ?thesis
  proof cases
    case isFrame
    with p assms(2) show ?thesis
      by (auto simp: typeFields_frame read_assign)
  next
    case isText
    with p assms(2) show ?thesis
      by (auto simp: typeFields_text read_assign)
  next
    case isRect
    with p assms(2) show ?thesis
      by (auto simp: typeFields_rectangle read_assign)
  next
    case isSet
    with assms(2-4) show ?thesis
      by (simp add: typeFields_component_set read_assign)
  next
    case isOther
    with assms(2) show ?thesis
      by (simp add: typeFields_other)
  qed
qed

lemma reservedKeys_fresh:
  assumes "k \<notin> set reservedKeys"
  shows "k \<noteq> ''componentId'' \<and> k \<noteq> ''instanceName'' \<and> k \<noteq> ''children'' \<and>
         k \<notin> set (map fst (commonFields n))"
  using assms by (simp add: reservedKeys_def commonFields_def)

lemma mixed_not_emitted:
  assumes "read (props n) k = Mixed"
    and fresh: "k \<noteq> ''componentId'' \<and> k \<noteq> ''instanceName'' \<and> k \<noteq> ''children'' \<and>
         k \<notin> set (map fst (commonFields n))"
  shows "emitted (processNode n) k = None"
proof -
  from fresh have "read (commonFields n) k = Undefined"
    by (intro read_commonFields_other) (elim conjE)
  with fresh assms(1)
  have "read (typeFields n (commonFields n)) k = Undefined \<or>
        read (typeFields n (commonFields n)) k = Mixed"
    by (intro read_typeFields_mixed) (elim conjE | assumption)+
  with fresh have "read (processNode n) k = Undefined \<or> read (processNode n) k = Mixed"
    by (simp add: read_processNode)
  then show ?thesis
    by (elim disjE) (simp_all add: emitted_processNode)
qed

text \<open>
  C2.  For every node and every attribute that holds the sentinel on the input (the
  \<^verbatim>\<open>fontSize\<close>, \<^verbatim>\<open>fontName\<close> and \<^verbatim>\<open>fills\<close> of a text, the \<^verbatim>\<open>cornerRadius\<close>, \<^verbatim>\<open>fills\<close>,
  \<^verbatim>\<open>strokes\<close> and \<^verbatim>\<open>strokeWeight\<close> of a rectangle, any other name the switch reads, and
  any name at all that is not one of the record's own), the emitted document has no such
  key: the sentinel is emitted neither as a value nor as \<^verbatim>\<open>null\<close>.  For the six tested
  attributes the record itself has no value for the field.
\<close>

theorem mixed_never_emitted:
  "read (props n) k = Mixed \<longrightarrow>
     (k \<in> set (layoutKeys @ textKeys @ rectKeys) \<longrightarrow> emitted (processNode n) k = None) \<and>
     (k \<notin> set reservedKeys \<longrightarrow> emitted (processNode n) k = None) \<and>
     (ntype n = ''TEXT'' \<and> (k = ''fontSize'' \<or> k = ''fontName'' \<or> k = ''fills'') \<or>
      ntype n = ''RECTANGLE'' \<and>
        (k = ''cornerRadius'' \<or> k = ''fills'' \<or> k = ''strokeWeight'')
      \<longrightarrow> read (processNode n) k = Undefined)"
proof (rule impI, intro conjI)
  assume m: "read (props n) k = Mixed"
  show "k \<in> set (layoutKeys @ textKeys @ rectKeys) \<longrightarrow> emitted (processNode n) k = None"
  proof
    assume "k \<in> set (layoutKeys @ textKeys @ rectKeys)"
    from mixed_not_emitted [OF m hostKeys_fresh [OF this]]
    show "emitted (processNode n) k = None" .
  qed
  show "k \<notin> set reservedKeys \<longrightarrow> emitted (processNode n) k = None"
  proof
    assume "k \<notin> set reservedKeys"
    from mixed_not_emitted [OF m reservedKeys_fresh [OF this]]
    show "emitted (processNode n) k = None" .
  qed
  show "ntype n = ''TEXT'' \<and> (k = ''fontSize'' \<or> k = ''fontName'' \<or> k = ''fills'') \<or>
      ntype n = ''RECTANGLE'' \<and>
        (k = ''cornerRadius'' \<or> k = ''fills'' \<or> k = ''strokeWeight'')
      \<longrightarrow> read (processNode n) k = Undefined"
  proof
    assume "ntype n = ''TEXT'' \<and> (k = ''fontSize'' \<or> k = ''fontName'' \<or> k = ''fills'') \<or>
      ntype n = ''RECTANGLE'' \<and>
        (k = ''cornerRadius'' \<or> k = ''fills'' \<or> k = ''strokeWeight'')"
    from mixed_checked_undefined [OF m this]
    show "read (processNode n) k = Undefined" .
  qed
qed

theorem mixed_never_emitted_witness:
  "read (props mixedFills) ''fills'' = Mixed \<and>
   read (processNode mixedFills) ''fills'' = Undefined \<and>
   emitted (processNode mixedFills) ''fills'' = None \<and>
   read (props mixedStrokes) ''strokes'' = Mixed \<and>
   emitted (processNode mixedStrokes) ''strokes'' = None"
proof -
  have ty: "ntype mixedFills = ''RECTANGLE''"
    by (simp add: mixedFills_def)
  have fills: "read (props mixedFills) ''fills'' = Mixed"
    by (simp add: mixedFills_def read_Cons)
  have strokes: "read (props mixedStrokes) ''strokes'' = Mixed"
    by (simp add: mixedStrokes_def read_Cons)
  have kf: "''fills'' \<in> set (layoutKeys @ textKeys @ rectKeys)"
    and ks: "''strokes'' \<in> set (layoutKeys @ textKeys @ rectKeys)"
    by (simp_all add: rectKeys_def)
  have checked: "ntype mixedFills = ''TEXT'' \<and>
        (''fills'' = ''fontSize'' \<or> ''fills'' = ''fontName'' \<or> ''fills'' = ''fills'') \<or>
      ntype mixedFills = ''RECTANGLE'' \<and>
        (''fills'' = ''cornerRadius'' \<or> ''fills'' = ''fills'' \<or> ''fills'' = ''strokeWeight'')"
    using ty by simp
  note f = mixed_never_emitted [of mixedFills "''fills''", rule_format, OF fills]
  note s = mixed_never_emitted [of mixedStrokes "''strokes''", rule_format, OF strokes]
  from fills f [THEN conjunct2, THEN conjunct2, rule_format, OF checked]
    f [THEN conjunct1, rule_format, OF kf] strokes s [THEN conjunct1, rule_format, OF ks]
  show ?thesis
    by (intro conjI)
qed

section \<open>The shape of the output\<close>

lemma out_children_processNode:
  "out_children (Obj (processNode n)) = map (\<lambda>child. Obj (processNode child)) (kids n)"
proof -
  have "map_of (processNode n) ''children'' =
          (if kids n = [] then None
           else Some (Arr (map (\<lambda>child. Obj (processNode child)) (kids n))))"
    using has_typeFields_children [of n "commonFields n"] has_commonFields_children [of n]
    by (simp add: processNode_unfold [of n] kids_def map_of_assign has_def
          split: option.splits)
  then show ?thesis
    by (simp add: out_children_def)
qed

lemma shape_of_kids: "shape_of n = Shape (map shape_of (kids n))"
  by (cases n) (simp add: kids_def split: option.splits)

lemma out_shape_processNode: "out_shape (Obj (processNode n)) = shape_of n"
proof (induction n)
  case (Node ty nm x y w h i vis ps ch)
  let ?n = "Node ty nm x y w h i vis ps ch"
  have "out_shape (Obj (processNode c)) = shape_of c" if "c \<in> set (kids ?n)" for c
    using that Node.IH by (cases ch) (auto simp: kids_def)
  then have kids: "map (\<lambda>c. out_shape (Obj (processNode c))) (kids ?n) = map shape_of (kids ?n)"
    by simp
  have "out_shape (Obj (processNode ?n)) =
          Shape (map (\<lambda>c. out_shape (Obj (processNode c))) (kids ?n))"
    by (simp add: out_shape.simps [of "Obj (processNode ?n)"] out_children_processNode o_def)
  also have "\<dots> = Shape (map shape_of (kids ?n))"
    by (simp only: kids)
  also have "\<dots> = shape_of ?n"
    by (rule shape_of_kids [symmetric])
  finally show ?case .
qed

lemma export_nonempty:
  "selection p \<noteq> [] \<Longrightarrow>
   exportSelectedWithDescendantsToJSON p =
     [\<lparr>msg_type = ''export'', data = JSON_stringify (Obj (selectionData p))\<rparr>]"
  by (simp add: exportSelectedWithDescendantsToJSON_def)

lemma out_selected_selectionData:
  "out_selected (selectionData p) = map (\<lambda>node. Obj (processNode node)) (selection p)"
  by (simp add: out_selected_def selectionData_def read_Cons)

text \<open>
  C5.  For every non-empty input forest the output mirrors the input: the message carries
  the envelope, \<^verbatim>\<open>selectedNodes[i]\<close> is the serialization of \<^verbatim>\<open>roots[i]\<close>, every child list
  is serialized element by element in its order, and so every serialized root has the
  shape of its input root: the same number of nodes, the same nesting depth and the same
  number of nodes at every depth.
\<close>

theorem output_mirrors_input:
  assumes "selection p \<noteq> []"
  shows "exportSelectedWithDescendantsToJSON p =
           [\<lparr>msg_type = ''export'', data = JSON_stringify (Obj (selectionData p))\<rparr>] \<and>
         out_selected (selectionData p) =
           map (\<lambda>node. Obj (processNode node)) (selection p) \<and>
         (\<forall>n. out_children (Obj (processNode n)) =
                map (\<lambda>child. Obj (processNode child)) (kids n)) \<and>
         map out_shape (out_selected (selectionData p)) = map shape_of (selection p) \<and>
         map (countNodes \<circ> out_shape) (out_selected (selectionData p)) =
           map (countNodes \<circ> shape_of) (selection p) \<and>
         map (depth \<circ> out_shape) (out_selected (selectionData p)) =
           map (depth \<circ> shape_of) (selection p) \<and>
         (\<forall>d. map (nodes_at d \<circ> out_shape) (out_selected (selectionData p)) =
                map (nodes_at d \<circ> shape_of) (selection p))"
proof -
  have shapes: "map out_shape (out_selected (selectionData p)) = map shape_of (selection p)"
    by (simp add: out_selected_selectionData o_def out_shape_processNode)
  have lift: "map (f \<circ> out_shape) (out_selected (selectionData p)) =
                map (f \<circ> shape_of) (selection p)" for f :: "shape \<Rightarrow> nat"
    using arg_cong [OF shapes, of "map f"] by (simp only: map_map)
  from export_nonempty [OF assms] out_selected_selectionData [of p] shapes
    out_children_processNode lift
  show ?thesis
    by (intro conjI allI)
qed

theorem output_mirrors_input_witness:
  "selection examplePage \<noteq> [] \<and>
   out_selected (selectionData examplePage) = [Obj (processNode frameWithTexts)] \<and>
   map (countNodes \<circ> out_shape) (out_selected (selectionData examplePage)) = [3] \<and>
   map (depth \<circ> out_shape) (out_selected (selectionData examplePage)) = [2] \<and>
   map (nodes_at 1 \<circ> out_shape) (out_selected (selectionData examplePage)) = [2]"
proof -
  have sel: "selection examplePage = [frameWithTexts]"
    by (simp add: examplePage_def)
  then have ne: "selection examplePage \<noteq> []"
    by simp
  have shape: "shape_of frameWithTexts = Shape [Shape [], Shape []]"
    by (simp add: frameWithTexts_def)
  note mirror = output_mirrors_input [OF ne]
  from mirror have roots: "out_selected (selectionData examplePage) =
      map (\<lambda>node. Obj (processNode node)) (selection examplePage)"
    by (elim conjE)
  from mirror have count: "map (countNodes \<circ> out_shape) (out_selected (selectionData examplePage)) =
      map (countNodes \<circ> shape_of) (selection examplePage)"
    by (elim conjE)
  from mirror have deep: "map (depth \<circ> out_shape) (out_selected (selectionData examplePage)) =
      map (depth \<circ> shape_of) (selection examplePage)"
    by (elim conjE)
  from mirror have level: "map (nodes_at 1 \<circ> out_shape) (out_selected (selectionData examplePage)) =
      map (nodes_at 1 \<circ> shape_of) (selection examplePage)"
    by (elim conjE allE)
  from roots have roots': "out_selected (selectionData examplePage) =
      [Obj (processNode frameWithTexts)]"
    by (simp add: sel)
  from count have count': "map (countNodes \<circ> out_shape)
      (out_selected (selectionData examplePage)) = [3]"
    by (simp add: sel shape)
  from deep have deep': "map (depth \<circ> out_shape)
      (out_selected (selectionData examplePage)) = [2]"
    by (simp add: sel shape)
  from level have level': "map (nodes_at 1 \<circ> out_shape)
      (out_selected (selectionData examplePage)) = [2]"
    by (simp add: sel shape)
  from ne roots' count' deep' level' show ?thesis
    by (intro conjI)
qed

section \<open>Termination and the depth of the recursion\<close>

lemma fold_max_le: "fold max xs (a::nat) \<le> d \<longleftrightarrow> a \<le> d \<and> (\<forall>x\<in>set xs. x \<le> d)"
  by (induction xs arbitrary: a) auto

lemma depth_le:
  "depth (shape_of n) \<le> Suc d \<longleftrightarrow> (\<forall>c\<in>set (kids n). depth (shape_of c) \<le> d)"
  by (simp add: shape_of_kids [of n] fold_max_le)

lemma depth_pos: "0 < depth t"
  by (cases t) simp

lemma those_map_if:
  "those (map (\<lambda>c. if P c then Some (f c) else None) cs) =
     (if \<forall>c\<in>set cs. P c then Some (map f cs) else None)"
  by (induction cs) auto

lemma processNode_stack_unfold:
  "processNode_stack (Suc d) n =
     (if kids n = [] then Some (processNode n)
      else case those (map (processNode_stack d) (kids n)) of
             None \<Rightarrow> None
           | Some rs \<Rightarrow>
               Some (assign (typeFields n (commonFields n)) ''children'' (Arr (map Obj rs))))"
  by (cases n) (simp add: kids_def processNode.simps split: option.splits)

lemma processNode_kids:
  "kids n \<noteq> [] \<Longrightarrow>
   processNode n =
     assign (typeFields n (commonFields n)) ''children''
       (Arr (map (\<lambda>child. Obj (processNode child)) (kids n)))"
  by (simp add: processNode_unfold [of n] kids_def split: option.splits)

lemma processNode_stack_eq:
  "processNode_stack d n = (if depth (shape_of n) \<le> d then Some (processNode n) else None)"
proof (induction d arbitrary: n)
  case 0
  from depth_pos [of "shape_of n"] show ?case
    by simp
next
  case (Suc d)
  show ?case
  proof (cases "kids n = []")
    case True
    then show ?thesis
      by (simp add: processNode_stack_unfold depth_le)
  next
    case False
    have "map (processNode_stack d) (kids n) =
            map (\<lambda>c. if depth (shape_of c) \<le> d then Some (processNode c) else None) (kids n)"
      using Suc.IH by simp
    then have "those (map (processNode_stack d) (kids n)) =
            (if \<forall>c\<in>set (kids n). depth (shape_of c) \<le> d
             then Some (map processNode (kids n)) else None)"
      by (simp only: those_map_if)
    with False show ?thesis
      by (simp add: processNode_stack_unfold depth_le processNode_kids o_def)
  qed
qed

text \<open>
  C9.  For every finite tree the walk terminates and returns the complete record: with a
  call stack of as many frames as the tree is deep, the call returns what \<open>processNode\<close>
  denotes, a record of the shape of the whole input tree.  The recursion is exactly as
  deep as the tree (one frame less and the call fails), and nothing else bounds it: any
  deeper stack gives the same record.
\<close>

theorem processNode_returns:
  "processNode_stack (depth (shape_of n)) n = Some (processNode n) \<and>
   (\<forall>d. processNode_stack d n =
          (if depth (shape_of n) \<le> d then Some (processNode n) else None)) \<and>
   out_shape (Obj (processNode n)) = shape_of n"
  by (simp add: processNode_stack_eq out_shape_processNode)

theorem processNode_returns_witness:
  "processNode_stack 2 frameWithTexts = Some (processNode frameWithTexts) \<and>
   processNode_stack 1 frameWithTexts = None \<and>
   depth (shape_of frameWithTexts) = 2"
proof -
  have "depth (shape_of frameWithTexts) = 2"
    by (simp add: frameWithTexts_def numeral_2_eq_2)
  with processNode_returns [of frameWithTexts] show ?thesis
    by simp
qed

section \<open>Visibility\<close>

lemma assign_commute:
  "k \<noteq> k' \<Longrightarrow> has k' ob \<Longrightarrow>
   assign (assign ob k' v') k v = assign (assign ob k v) k' v'"
  by (induction ob) (auto simp: has_Cons has_Nil)

lemma assign_visible_out:
  "k \<noteq> ''visible'' \<Longrightarrow> has ''visible'' ob \<Longrightarrow>
   assign (assign ob ''visible'' b) k v = assign (assign ob k v) ''visible'' b"
  by (rule assign_commute)

lemma typeFields_assign_visible:
  assumes "has ''visible'' ob"
  shows "typeFields n (assign ob ''visible'' b) = assign (typeFields n ob) ''visible'' b"
proof -
  consider (isFrame) "frameLike n" | (isText) "ntype n = ''TEXT''"
    | (isRect) "ntype n = ''RECTANGLE''" | (isSet) "ntype n = ''COMPONENT_SET''"
    | (isOther) "\<not> frameLike n" "ntype n \<noteq> ''TEXT''" "ntype n \<noteq> ''RECTANGLE''"
        "ntype n \<noteq> ''COMPONENT_SET''"
    by blast
  then show ?thesis
  proof cases
    case isFrame
    show ?thesis
      unfolding typeFields_frame [OF isFrame]
      using assms by (simp add: assign_visible_out has_assign)
  next
    case isText
    show ?thesis
      unfolding typeFields_text [OF isText]
      using assms by (simp add: assign_visible_out has_assign)
  next
    case isRect
    show ?thesis
      unfolding typeFields_rectangle [OF isRect]
      using assms by (simp add: assign_visible_out has_assign)
  next
    case isSet
    show ?thesis
      unfolding typeFields_component_set [OF isSet]
      using assms by (simp add: assign_visible_out has_assign)
  next
    case isOther
    then show ?thesis
      by (simp add: typeFields_other)
  qed
qed

lemma typeFields_visible_irrelevant:
  "typeFields (Node ty nm x y w h i vis ps ch) ob = typeFields (Node ty nm x y w h i True ps ch) ob"
  by (simp add: typeFields_def)

lemma commonFields_visible:
  "commonFields (Node ty nm x y w h i vis ps ch) =
     assign (commonFields (Node ty nm x y w h i True ps ch)) ''visible'' (Bool vis)"
  by (simp add: commonFields_def)

lemma has_visible_commonFields: "has ''visible'' (commonFields n)"
  by (simp add: commonFields_def has_Cons)

lemma has_typeFields_visible: "has ''visible'' ob \<Longrightarrow> has ''visible'' (typeFields n ob)"
  by (simp add: typeFields_def Let_def has_assign)

lemma processNode_visible:
  "processNode (Node ty nm x y w h i vis ps ch) =
     assign (processNode (Node ty nm x y w h i True ps ch)) ''visible'' (Bool vis)"
proof -
  let ?n = "Node ty nm x y w h i vis ps ch" and ?t = "Node ty nm x y w h i True ps ch"
  have base: "typeFields ?n (commonFields ?n) =
                assign (typeFields ?t (commonFields ?t)) ''visible'' (Bool vis)"
    by (simp only: commonFields_visible [of ty nm x y w h i vis ps ch]
          typeFields_visible_irrelevant [of ty nm x y w h i vis ps ch]
          typeFields_assign_visible [OF has_visible_commonFields])
  have vis: "has ''visible'' (typeFields ?t (commonFields ?t))"
    by (rule has_typeFields_visible [OF has_visible_commonFields])
  show ?thesis
  proof (cases "kids ?n = []")
    case True
    then have "kids ?t = []"
      by (simp add: kids_def)
    with True base show ?thesis
      by (simp add: processNode_unfold [of ?n] processNode_unfold [of ?t] kids_def
            split: option.splits)
  next
    case False
    then have "kids ?t \<noteq> []" and same: "kids ?t = kids ?n"
      by (simp_all add: kids_def)
    with False base vis show ?thesis
      by (simp add: processNode_kids assign_visible_out)
  qed
qed

text \<open>
  C10.  The visibility flag never affects the traversal.  The record of a node is the
  record of the same node made visible, but for its \<^verbatim>\<open>visible\<close> field, which holds the
  flag; the children of a hidden node are serialized like those of a visible one, each
  of them by \<open>processNode\<close> (so the same holds one level down), and the record has the
  shape of the whole subtree: nothing is pruned.
\<close>

theorem visibility_never_prunes:
  "processNode (Node ty nm x y w h i vis ps ch) =
     assign (processNode (Node ty nm x y w h i True ps ch)) ''visible'' (Bool vis) \<and>
   read (processNode (Node ty nm x y w h i vis ps ch)) ''visible'' = Bool vis \<and>
   out_children (Obj (processNode (Node ty nm x y w h i vis ps ch))) =
     map (\<lambda>child. Obj (processNode child)) (kids (Node ty nm x y w h i True ps ch)) \<and>
   out_shape (Obj (processNode (Node ty nm x y w h i vis ps ch))) =
     shape_of (Node ty nm x y w h i True ps ch)"
proof -
  have "kids (Node ty nm x y w h i vis ps ch) = kids (Node ty nm x y w h i True ps ch)"
    by (simp add: kids_def)
  moreover have "shape_of (Node ty nm x y w h i vis ps ch) =
      shape_of (Node ty nm x y w h i True ps ch)"
    by simp
  ultimately show ?thesis
    using processNode_visible [of ty nm x y w h i vis ps ch]
      read_processNode_common(8) [of "Node ty nm x y w h i vis ps ch"]
      out_children_processNode [of "Node ty nm x y w h i vis ps ch"]
      out_shape_processNode [of "Node ty nm x y w h i vis ps ch"]
    by (simp add: read_commonFields)
qed

theorem visibility_never_prunes_witness:
  "read (processNode hiddenFrame) ''visible'' = Bool False \<and>
   out_children (Obj (processNode hiddenFrame)) =
     [Obj (processNode (Node ''TEXT'' ''Label'' (Finite 8) (Finite 8) (Finite 100) (Finite 20)
        ''2:2'' False [(''characters'', Str ''Hi'')] None))] \<and>
   countNodes (out_shape (Obj (processNode hiddenFrame))) = 2"
proof -
  let ?child = "Node ''TEXT'' ''Label'' (Finite 8) (Finite 8) (Finite 100) (Finite 20) ''2:2''
                  False [(''characters'', Str ''Hi'')] None"
  let ?ps = "[(''layoutMode'', Str ''VERTICAL''), (''paddingLeft'', Num (Finite 8))]"
  note v = visibility_never_prunes [of "''FRAME''" "''Hidden''" "Finite 0" "Finite 0"
      "Finite 200" "Finite 100" "''2:1''" False ?ps "Some [?child]"]
  have hidden: "hiddenFrame =
      Node ''FRAME'' ''Hidden'' (Finite 0) (Finite 0) (Finite 200) (Finite 100) ''2:1'' False
        ?ps (Some [?child])"
    by (simp add: hiddenFrame_def)
  from v have flag: "read (processNode hiddenFrame) ''visible'' = Bool False"
    unfolding hidden by (elim conjE)
  from v have "out_children (Obj (processNode hiddenFrame)) =
      map (\<lambda>child. Obj (processNode child))
        (kids (Node ''FRAME'' ''Hidden'' (Finite 0) (Finite 0) (Finite 200) (Finite 100)
           ''2:1'' True ?ps (Some [?child])))"
    unfolding hidden by (elim conjE)
  then have kept: "out_children (Obj (processNode hiddenFrame)) = [Obj (processNode ?child)]"
    by (simp add: kids_def)
  from v have "out_shape (Obj (processNode hiddenFrame)) =
      shape_of (Node ''FRAME'' ''Hidden'' (Finite 0) (Finite 0) (Finite 200) (Finite 100)
           ''2:1'' True ?ps (Some [?child]))"
    unfolding hidden by (elim conjE)
  then have count: "countNodes (out_shape (Obj (processNode hiddenFrame))) = 2"
    by simp
  from flag kept count show ?thesis
    by (intro conjI)
qed

section \<open>The envelope and the empty selection\<close>

lemma export_empty:
  "selection p = [] \<Longrightarrow>
   exportSelectedWithDescendantsToJSON p = [\<lparr>msg_type = ''export'', data = Some errorPayload\<rparr>]"
  by (simp add: exportSelectedWithDescendantsToJSON_def errorPayload_def)

lemma stringify_selectionData:
  "JSON_stringify (Obj (selectionData p)) =
     Some (JObj [(''pageName'', JStr (page_name p)),
                 (''pageId'', JStr (page_id p)),
                 (''selectedNodes'',
                    JArr (map (\<lambda>node. case JSON_stringify (Obj (processNode node)) of
                                          None \<Rightarrow> JNull | Some j \<Rightarrow> j)
                            (selection p)))])"
  by (simp add: selectionData_def o_def)

lemma export_envelope:
  assumes "selection p \<noteq> []"
  shows "exportSelectedWithDescendantsToJSON p =
     [\<lparr>msg_type = ''export'',
       data = Some (JObj [(''pageName'', JStr (page_name p)),
                          (''pageId'', JStr (page_id p)),
                          (''selectedNodes'',
                             JArr (map (\<lambda>node. case JSON_stringify (Obj (processNode node)) of
                                                   None \<Rightarrow> JNull | Some j \<Rightarrow> j)
                                     (selection p)))])\<rparr>]"
  using export_nonempty [OF assms] by (simp only: stringify_selectionData)

lemma export_names_envelope:
  assumes "selection p \<noteq> []"
  shows "exportSelectedWithDescendantsToJSON_names keys p =
     [\<lparr>msg_type = ''export'',
       data = Some (JObj [(''pageName'', JStr (page_name p)),
                          (''pageId'', JStr (page_id p)),
                          (''selectedNodes'',
                             JArr (map (\<lambda>node. case JSON_stringify
                                                        (Obj (processNode_names keys node)) of
                                                   None \<Rightarrow> JNull | Some j \<Rightarrow> j)
                                     (selection p)))])\<rparr>]"
  using export_names_nonempty [OF assms, of keys] by (simp only: stringify_names_envelope)

lemma export_error_iff:
  "exportSelectedWithDescendantsToJSON p =
     [\<lparr>msg_type = ''export'', data = Some errorPayload\<rparr>] \<longleftrightarrow> selection p = []"
proof
  assume posted: "exportSelectedWithDescendantsToJSON p =
     [\<lparr>msg_type = ''export'', data = Some errorPayload\<rparr>]"
  show "selection p = []"
  proof (rule ccontr)
    assume "selection p \<noteq> []"
    from export_nonempty [OF this] posted show False
      by (simp only: stringify_selectionData) (simp add: errorPayload_def)
  qed
next
  assume "selection p = []"
  then show "exportSelectedWithDescendantsToJSON p =
     [\<lparr>msg_type = ''export'', data = Some errorPayload\<rparr>]"
    by (rule export_empty)
qed

text \<open>
  C6.  If the selection is empty, the one message posted carries exactly the error
  document \<^verbatim>\<open>{ error: "No elements selected" }\<close>, no envelope is built and (there being no
  node) none is serialized; for every non-empty selection the message carries the
  envelope with exactly \<^verbatim>\<open>pageName\<close>, \<^verbatim>\<open>pageId\<close> and \<^verbatim>\<open>selectedNodes\<close>, the documents of
  the roots in their order.  The error document is posted if and only if the selection
  is empty.  Both source files do so.
\<close>

theorem export_error_iff_empty:
  "(selection p = [] \<longrightarrow>
      exportSelectedWithDescendantsToJSON p =
        [\<lparr>msg_type = ''export'', data = Some errorPayload\<rparr>] \<and>
      exportSelectedWithDescendantsToJSON_names keys p =
        [\<lparr>msg_type = ''export'', data = Some errorPayload\<rparr>]) \<and>
   (selection p \<noteq> [] \<longrightarrow>
      exportSelectedWithDescendantsToJSON p =
        [\<lparr>msg_type = ''export'',
          data = Some (JObj [(''pageName'', JStr (page_name p)),
                             (''pageId'', JStr (page_id p)),
                             (''selectedNodes'',
                                JArr (map (\<lambda>node. case JSON_stringify (Obj (processNode node)) of
                                                      None \<Rightarrow> JNull | Some j \<Rightarrow> j)
                                        (selection p)))])\<rparr>] \<and>
      exportSelectedWithDescendantsToJSON_names keys p =
        [\<lparr>msg_type = ''export'',
          data = Some (JObj [(''pageName'', JStr (page_name p)),
                             (''pageId'', JStr (page_id p)),
                             (''selectedNodes'',
                                JArr (map (\<lambda>node. case JSON_stringify
                                                           (Obj (processNode_names keys node)) of
                                                      None \<Rightarrow> JNull | Some j \<Rightarrow> j)
                                        (selection p)))])\<rparr>]) \<and>
   (exportSelectedWithDescendantsToJSON p = [\<lparr>msg_type = ''export'', data = Some errorPayload\<rparr>]
      \<longleftrightarrow> selection p = []) \<and>
   (exportSelectedWithDescendantsToJSON_names keys p =
      [\<lparr>msg_type = ''export'', data = Some errorPayload\<rparr>]
      \<longleftrightarrow> selection p = [])"
proof (intro conjI)
  show "selection p = [] \<longrightarrow>
      exportSelectedWithDescendantsToJSON p =
        [\<lparr>msg_type = ''export'', data = Some errorPayload\<rparr>] \<and>
      exportSelectedWithDescendantsToJSON_names keys p =
        [\<lparr>msg_type = ''export'', data = Some errorPayload\<rparr>]"
    using export_empty [of p] export_names_empty [of p keys] by (intro impI conjI)
  show "selection p \<noteq> [] \<longrightarrow>
      exportSelectedWithDescendantsToJSON p =
        [\<lparr>msg_type = ''export'',
          data = Some (JObj [(''pageName'', JStr (page_name p)),
                             (''pageId'', JStr (page_id p)),
                             (''selectedNodes'',
                                JArr (map (\<lambda>node. case JSON_stringify (Obj (processNode node)) of
                                                      None \<Rightarrow> JNull | Some j \<Rightarrow> j)
                                        (selection p)))])\<rparr>] \<and>
      exportSelectedWithDescendantsToJSON_names keys p =
        [\<lparr>msg_type = ''export'',
          data = Some (JObj [(''pageName'', JStr (page_name p)),
                             (''pageId'', JStr (page_id p)),
                             (''selectedNodes'',
                                JArr (map (\<lambda>node. case JSON_stringify
                                                           (Obj (processNode_names keys node)) of
                                                      None \<Rightarrow> JNull | Some j \<Rightarrow> j)
                                        (selection p)))])\<rparr>]"
    using export_envelope [of p] export_names_envelope [of p keys] by (intro impI conjI)
  show "exportSelectedWithDescendantsToJSON p =
      [\<lparr>msg_type = ''export'', data = Some errorPayload\<rparr>] \<longleftrightarrow> selection p = []"
    by (rule export_error_iff)
  show "exportSelectedWithDescendantsToJSON_names keys p =
      [\<lparr>msg_type = ''export'', data = Some errorPayload\<rparr>] \<longleftrightarrow> selection p = []"
    by (rule export_names_error_iff)
qed

lemma processNode_mixedFills:
  "processNode mixedFills =
     [(''type'', Str ''RECTANGLE''), (''name'', Str ''Box''), (''x'', Num (Finite 0)),
      (''y'', Num (Finite 0)), (''width'', Num (Finite 80)), (''height'', Num (Finite 40)),
      (''id'', Str ''3:6''), (''visible'', Bool True), (''cornerRadius'', Num (Finite 4)),
      (''fills'', Undefined), (''strokes'', Arr []), (''strokeWeight'', Num (Finite 1))]"
proof -
  have ty: "ntype mixedFills = ''RECTANGLE''"
    by (simp add: mixedFills_def)
  have ch: "children mixedFills = None"
    by (simp add: mixedFills_def)
  have ps: "props mixedFills =
      [(''cornerRadius'', Num (Finite 4)), (''fills'', Mixed), (''strokes'', Arr []),
       (''strokeWeight'', Num (Finite 1))]"
    by (simp add: mixedFills_def)
  have cf: "commonFields mixedFills =
      [(''type'', Str ''RECTANGLE''), (''name'', Str ''Box''), (''x'', Num (Finite 0)),
      (''y'', Num (Finite 0)), (''width'', Num (Finite 80)), (''height'', Num (Finite 40)),
      (''id'', Str ''3:6''), (''visible'', Bool True)]"
    by (simp add: mixedFills_def commonFields_def)
  show ?thesis
    by (simp add: processNode_unfold [of mixedFills] ch typeFields_rectangle [OF ty] ps cf
          read_Cons read_Nil)
qed

theorem export_error_iff_empty_witness:
  "exportSelectedWithDescendantsToJSON emptyPage =
     [\<lparr>msg_type = ''export'',
       data = Some (JObj [(''error'', JStr ''No elements selected'')])\<rparr>] \<and>
   exportSelectedWithDescendantsToJSON_names propNames emptyPage =
     [\<lparr>msg_type = ''export'',
       data = Some (JObj [(''error'', JStr ''No elements selected'')])\<rparr>] \<and>
   exportSelectedWithDescendantsToJSON rectanglePage =
     [\<lparr>msg_type = ''export'',
       data = Some (JObj
         [(''pageName'', JStr ''Page 1''),
          (''pageId'', JStr ''0:1''),
          (''selectedNodes'',
             JArr [JObj [(''type'', JStr ''RECTANGLE''), (''name'', JStr ''Box''),
                         (''x'', JNum 0), (''y'', JNum 0), (''width'', JNum 80),
                         (''height'', JNum 40), (''id'', JStr ''3:6''),
                         (''visible'', JBool True), (''cornerRadius'', JNum 4),
                         (''strokes'', JArr []), (''strokeWeight'', JNum 1)]])])\<rparr>]"
proof -
  have e: "selection emptyPage = []"
    by (simp add: emptyPage_def)
  have r: "selection rectanglePage \<noteq> []"
    by (simp add: rectanglePage_def)
  have doc: "JSON_stringify (Obj (processNode mixedFills)) =
      Some (JObj [(''type'', JStr ''RECTANGLE''), (''name'', JStr ''Box''),
                  (''x'', JNum 0), (''y'', JNum 0), (''width'', JNum 80),
                  (''height'', JNum 40), (''id'', JStr ''3:6''),
                  (''visible'', JBool True), (''cornerRadius'', JNum 4),
                  (''strokes'', JArr []), (''strokeWeight'', JNum 1)])"
    by (simp add: processNode_mixedFills)
  note empty = export_error_iff_empty [of emptyPage propNames, THEN conjunct1, rule_format, OF e]
  note full = export_error_iff_empty [of rectanglePage propNames, THEN conjunct2,
      THEN conjunct1, rule_format, OF r, THEN conjunct1]
  from empty [THEN conjunct1] empty [THEN conjunct2] full show ?thesis
    by (simp add: errorPayload_def rectanglePage_def doc del: JSON_stringify.simps)
qed

section \<open>Absent fields and the layout fields\<close>

lemma absent_subfields_omitted:
  "\<forall>k\<in>set (layoutKeys @ textKeys @ rectKeys).
      \<not> has k (props n) \<longrightarrow>
      read (processNode n) k = Undefined \<and> emitted (processNode n) k = None"
proof (rule ballI, rule impI)
  fix k
  assume k: "k \<in> set (layoutKeys @ textKeys @ rectKeys)" and absent: "\<not> has k (props n)"
  have u: "read (processNode n) k = Undefined"
    by (rule absent_subfield_undefined [OF k absent])
  with emitted_undefined [OF u]
  show "read (processNode n) k = Undefined \<and> emitted (processNode n) k = None"
    by (rule conjI [rotated])
qed

lemma layout_all_copied:
  "frameLike n \<and> has ''layoutMode'' (props n) \<longrightarrow>
      (\<forall>k\<in>set layoutKeys.
         has k (processNode n) \<and> read (processNode n) k = read (props n) k)"
proof (rule impI, rule ballI)
  fix k
  assume fl: "frameLike n \<and> has ''layoutMode'' (props n)" and k: "k \<in> set layoutKeys"
  show "has k (processNode n) \<and> read (processNode n) k = read (props n) k"
    by (rule layout_copied [OF fl [THEN conjunct1] fl [THEN conjunct2] k])
qed

lemma layout_all_omitted:
  "frameLike n \<and> \<not> has ''layoutMode'' (props n) \<longrightarrow>
      (\<forall>k\<in>set layoutKeys.
         \<not> has k (processNode n) \<and> emitted (processNode n) k = None)"
proof (rule impI, rule ballI)
  fix k
  assume fl: "frameLike n \<and> \<not> has ''layoutMode'' (props n)" and k: "k \<in> set layoutKeys"
  have a: "\<not> has k (processNode n)"
    by (rule layout_omitted [OF fl [THEN conjunct1] fl [THEN conjunct2] k])
  from a emitted_absent [OF a]
  show "\<not> has k (processNode n) \<and> emitted (processNode n) k = None"
    by (rule conjI)
qed

lemma processNode_stack_enough: "\<exists>d. processNode_stack d n = Some (processNode n)"
proof
  show "processNode_stack (depth (shape_of n)) n = Some (processNode n)"
    by (simp add: processNode_stack_eq)
qed

text \<open>
  C7.  \<open>processNode\<close> is total: for every node the call returns a record (given the
  stack the depth of the tree asks for), and a type-specific field the node lacks never
  makes it fail: the field reads \<^verbatim>\<open>undefined\<close> in the record and is left out of the
  emitted document.  For every frame-like node (\<^verbatim>\<open>FRAME\<close>, \<^verbatim>\<open>INSTANCE\<close>, \<^verbatim>\<open>COMPONENT\<close>) the
  seven layout fields are all copied when the node has the \<^verbatim>\<open>layoutMode\<close> property, and all
  seven are omitted when it has not.
\<close>

theorem layout_fields_all_or_none:
  "(\<forall>k\<in>set (layoutKeys @ textKeys @ rectKeys).
      \<not> has k (props n) \<longrightarrow>
      read (processNode n) k = Undefined \<and> emitted (processNode n) k = None) \<and>
   (frameLike n \<and> has ''layoutMode'' (props n) \<longrightarrow>
      (\<forall>k\<in>set layoutKeys.
         has k (processNode n) \<and> read (processNode n) k = read (props n) k)) \<and>
   (frameLike n \<and> \<not> has ''layoutMode'' (props n) \<longrightarrow>
      (\<forall>k\<in>set layoutKeys.
         \<not> has k (processNode n) \<and> emitted (processNode n) k = None)) \<and>
   (\<exists>d. processNode_stack d n = Some (processNode n))"
  using absent_subfields_omitted [of n] layout_all_copied [of n] layout_all_omitted [of n]
    processNode_stack_enough [of n]
  by (intro conjI)

theorem layout_fields_all_or_none_witness:
  "has ''paddingLeft'' (processNode hiddenFrame) \<and>
   read (processNode hiddenFrame) ''paddingLeft'' = Num (Finite 8) \<and>
   has ''paddingRight'' (processNode hiddenFrame) \<and>
   read (processNode hiddenFrame) ''paddingRight'' = Undefined \<and>
   emitted (processNode hiddenFrame) ''paddingRight'' = None \<and>
   \<not> has ''paddingLeft'' (processNode frameWithTexts) \<and>
   emitted (processNode frameWithTexts) ''layoutMode'' = None"
proof -
  have hf: "frameLike hiddenFrame \<and> has ''layoutMode'' (props hiddenFrame)"
    by (simp add: hiddenFrame_def frameLike_def has_Cons)
  have ff: "frameLike frameWithTexts \<and> \<not> has ''layoutMode'' (props frameWithTexts)"
    by (simp add: frameWithTexts_def frameLike_def has_Nil)
  have left: "''paddingLeft'' \<in> set layoutKeys" and right: "''paddingRight'' \<in> set layoutKeys"
    and mode: "''layoutMode'' \<in> set layoutKeys"
    by (simp_all add: layoutKeys_def)
  have right': "''paddingRight'' \<in> set (layoutKeys @ textKeys @ rectKeys)"
    using right by simp
  have absent: "\<not> has ''paddingRight'' (props hiddenFrame)"
    by (simp add: hiddenFrame_def has_Cons has_Nil)
  have eight: "read (props hiddenFrame) ''paddingLeft'' = Num (Finite 8)"
    by (simp add: hiddenFrame_def read_Cons)
  note h = layout_fields_all_or_none [of hiddenFrame]
  note f = layout_fields_all_or_none [of frameWithTexts]
  from h [THEN conjunct2, THEN conjunct1, rule_format, OF hf left] eight
  have l: "has ''paddingLeft'' (processNode hiddenFrame) \<and>
      read (processNode hiddenFrame) ''paddingLeft'' = Num (Finite 8)"
    by simp
  from h [THEN conjunct2, THEN conjunct1, rule_format, OF hf right]
  have r: "has ''paddingRight'' (processNode hiddenFrame)"
    by (rule conjunct1)
  note u = h [THEN conjunct1, rule_format, OF right' absent]
  note o1 = f [THEN conjunct2, THEN conjunct2, THEN conjunct1, rule_format, OF ff left]
  note o2 = f [THEN conjunct2, THEN conjunct2, THEN conjunct1, rule_format, OF ff mode]
  from l r u o1 [THEN conjunct1] o2 [THEN conjunct2] show ?thesis
    by (intro conjI) (elim conjE, assumption)+
qed

end
